theory Spec2Isabelle
  imports Main "HOL-Library.Word"
begin

section \<open>Strings, buffers and JavaScript values\<close>

text \<open>
  Strings are lists of 8-bit characters, read as the code points below 256 (Latin-1).
  \<open>toLowerCase\<close> is JavaScript's on every such character: the letters A to Z and
  the accented capitals 192 to 222 (without the sign 215) move up by 32, every other
  character stays. \<open>toUpperCase\<close> is its converse on the letters a to z and 224 to
  254 (without the sign 247). Three characters have an upper-case form in JavaScript
  that is not one character below 256 (181, 223 and 255); \<open>toUpperCase\<close> leaves
  them as they are. proof.js applies \<open>toUpperCase\<close> to a hexadecimal digest only.
\<close>

definition toUpperCase_char :: "char \<Rightarrow> char" where
  "toUpperCase_char c =
     (let n = (of_char c :: nat)
      in if (97 \<le> n \<and> n \<le> 122) \<or> (224 \<le> n \<and> n \<le> 254 \<and> n \<noteq> 247)
         then char_of (n - 32) else c)"

definition toLowerCase_char :: "char \<Rightarrow> char" where
  "toLowerCase_char c =
     (let n = (of_char c :: nat)
      in if (65 \<le> n \<and> n \<le> 90) \<or> (192 \<le> n \<and> n \<le> 222 \<and> n \<noteq> 215)
         then char_of (n + 32) else c)"

definition toUpperCase :: "string \<Rightarrow> string" where
  "toUpperCase s = map toUpperCase_char s"

definition toLowerCase :: "string \<Rightarrow> string" where
  "toLowerCase s = map toLowerCase_char s"

text \<open>A Buffer is a list of bytes; \<open>shard.toString('hex')\<close> writes two lower-case digits per byte.\<close>

type_synonym buffer = "8 word list"

definition hex_digit :: "nat \<Rightarrow> char" where
  "hex_digit n = ''0123456789abcdef'' ! (n mod 16)"

definition toString_hex :: "buffer \<Rightarrow> string" where
  "toString_hex b = concat (map (\<lambda>w. [hex_digit (unat w div 16), hex_digit (unat w mod 16)]) b)"

text \<open>
  JavaScript values: the primitive values, strings and arrays. They are the inputs of
  the constructor that the model covers, and the nested arrays that \<open>prove\<close> returns.
  Objects other than arrays are not among them.
\<close>

datatype js =
    JUndefined
  | JNull
  | JBool bool
  | JNum int
  | JStr string
  | JArr "js list"

datatype error =
    AssertionError string
  | TypeError

text \<open>\<open>xs[i]\<close> on an array of strings: \<open>undefined\<close> outside the array.\<close>

definition at_index :: "string list \<Rightarrow> nat \<Rightarrow> js" where
  "at_index xs i = (if i < length xs then JStr (xs ! i) else JUndefined)"

text \<open>\<open>Array.prototype.indexOf\<close>: the first index holding the value, \<open>-1\<close> when there is none.\<close>

fun indexOf :: "string list \<Rightarrow> string \<Rightarrow> int" where
  "indexOf [] x = - 1"
| "indexOf (y # ys) x =
     (if y = x then 0 else (let r = indexOf ys x in if r = - 1 then - 1 else r + 1))"

section \<open>The tree object of the merkle package\<close>

text \<open>
  Modelled from the spec: the tree object comes from the third-party package
  \<open>merkle\<close> (\<open>require('merkle')\<close>), whose source is not part of the repository.
  proof.js uses three of its operations: \<open>merkle('sha256').sync(leaves)\<close>,
  \<open>levels()\<close> and \<open>level(i)\<close>. The spec fixes the shape: a binary tree built by
  pairing siblings by index parity, the root at level 0, the leaves at the deepest
  level. A tree is modelled by its rows, \<open>rows[0]\<close> holding the root and the last row
  the leaves. The hash function is a parameter \<open>sha256\<close> throughout: \<open>utils.sha256\<close>
  is not in the repository's sources either.

  The theorems about \<open>prove\<close> below use two facts of this model only: a tree has at
  least one row, and a tree over one leaf has exactly one. In two places the model
  does not follow the spec's words. No general theorem rests on either; the closed
  instances are evaluated on the model as it is.
  \<^item> Letter case. The spec has the tree store its leaves in lower case. \<open>prove\<close> looks
    a digest up in upper case (\<open>leaves.indexOf(hash.toUpperCase())\<close>) and lower-cases
    what it reads from a level; on rows in lower case that lookup finds no digest
    with a letter in it (lemma \<open>prove_result_lower_case_tree\<close>). The model keeps the
    strings of the tree in upper case, the case in which \<open>prove\<close> looks them up.
  \<^item> A node without a sibling. The spec calls the tree padded and does not say with
    what. The model moves the last node of a row of odd length up as it is.
\<close>

type_synonym merkle_tree = "string list list"

text \<open>Modelled from the spec: \<open>levels()\<close> of the merkle package, the number of rows.\<close>

definition levels :: "merkle_tree \<Rightarrow> int" where
  "levels t = int (length t)"

text \<open>
  Modelled from the spec: \<open>level(i)\<close> of the merkle package, the row \<open>rows[i]\<close>;
  \<open>undefined\<close> (here \<open>None\<close>) outside the rows.
\<close>

definition level :: "merkle_tree \<Rightarrow> int \<Rightarrow> string list option" where
  "level t i = (if 0 \<le> i \<and> i < int (length t) then Some (t ! nat i) else None)"

text \<open>
  Modelled from the spec, but for the letter case (see above): the leaves of the
  merkle package. A string of 64 hexadecimal digits is taken as a SHA-256 digest,
  anything else is digested first; the leaf is kept in upper case.
\<close>

definition is_hash :: "string \<Rightarrow> bool" where
  "is_hash x = (length x = 64 \<and> list_all (\<lambda>c. c \<in> set ''0123456789abcdef'') x)"

definition feed :: "(string \<Rightarrow> string) \<Rightarrow> string \<Rightarrow> string" where
  "feed sha256 x = (if is_hash x then toUpperCase x else toUpperCase (sha256 x))"

text \<open>
  Modelled from the spec, but for the node without a sibling (see above): the row
  above a row of the merkle package. Siblings are paired by index parity; the last
  node of a row of odd length moves up as it is.
\<close>

fun getNodes :: "(string \<Rightarrow> string) \<Rightarrow> string list \<Rightarrow> string list" where
  "getNodes sha256 (a # b # xs) = toUpperCase (sha256 (a @ b)) # getNodes sha256 xs"
| "getNodes sha256 [a] = [a]"
| "getNodes sha256 [] = []"

text \<open>
  Modelled from the spec: the depth of the tree of the merkle package, the least
  \<open>pow\<close> with \<open>2 ^ pow\<close> not below the number of leaves, searched upwards from 0.
\<close>

function depth_from :: "nat \<Rightarrow> nat \<Rightarrow> nat" where
  "depth_from pow n = (if 2 ^ pow < n then depth_from (Suc pow) n else pow)"
  by pat_completeness auto
termination
proof (relation "measure (\<lambda>(pow, n). n - 2 ^ pow)")
  show "wf (measure (\<lambda>(pow, n). n - 2 ^ pow))" by simp
next
  fix pow n :: nat
  assume less: "2 ^ pow < n"
  have pos: "(0::nat) < 2 ^ pow" by simp
  from less pos have "n - 2 * 2 ^ pow < n - 2 ^ pow" by arith
  then show "((Suc pow, n), (pow, n)) \<in> measure (\<lambda>(pow, n). n - 2 ^ pow)"
    by simp
qed

declare depth_from.simps [simp del]

definition depth :: "string list \<Rightarrow> nat" where
  "depth leaves = depth_from 0 (length leaves)"

text \<open>
  Modelled from the spec: the rows of the merkle package, the leaves last and each
  row above built from the one below it, up to the root.
\<close>

fun compute :: "(string \<Rightarrow> string) \<Rightarrow> nat \<Rightarrow> string list \<Rightarrow> merkle_tree" where
  "compute sha256 0 row = [row]"
| "compute sha256 (Suc d) row = compute sha256 d (getNodes sha256 row) @ [row]"

text \<open>
  Modelled from the spec: \<open>merkle('sha256').sync(leaves)\<close>, the tree over the leaves
  it is given, built at once.
\<close>

definition merkle_sync :: "(string \<Rightarrow> string) \<Rightarrow> string list \<Rightarrow> merkle_tree" where
  "merkle_sync sha256 leaves =
     (let fed = map (feed sha256) leaves in compute sha256 (depth fed) fed)"

section \<open>proof.js\<close>

record proof_obj =
  tree :: merkle_tree

text \<open>
  \<open>leaf.toLowerCase()\<close> on an element of the array, for the values above: a TypeError
  unless it is a string (\<open>undefined\<close> and \<open>null\<close> have no properties; booleans,
  numbers and arrays have no such method).
\<close>

fun leaf_toLowerCase :: "js \<Rightarrow> error + string" where
  "leaf_toLowerCase (JStr s) = Inr (toLowerCase s)"
| "leaf_toLowerCase _ = Inl TypeError"

fun map_leaves :: "js list \<Rightarrow> error + string list" where
  "map_leaves [] = Inr []"
| "map_leaves (x # xs) =
     (case leaf_toLowerCase x of
        Inl e \<Rightarrow> Inl e
      | Inr s \<Rightarrow> (case map_leaves xs of Inl e \<Rightarrow> Inl e | Inr ss \<Rightarrow> Inr (s # ss)))"

fun Proof :: "(string \<Rightarrow> string) \<Rightarrow> js \<Rightarrow> error + proof_obj" where
  "Proof sha256 (JArr leaves) =
     (case map_leaves leaves of
        Inl e \<Rightarrow> Inl e
      | Inr ls \<Rightarrow> Inr \<lparr>tree = merkle_sync sha256 ls\<rparr>)"
| "Proof sha256 _ = Inl (AssertionError ''Merkle leaves must be an array'')"

text \<open>
  The loop of \<open>prove\<close>, \<open>for (i = levels - 1; i > 0; i--)\<close>, with the loop variables
  \<open>index\<close> and \<open>branches\<close> passed along. \<open>level(i)\<close> read outside the rows is
  \<open>undefined\<close>, and \<open>.map\<close> on it a TypeError.
\<close>

fun prove_loop :: "merkle_tree \<Rightarrow> nat \<Rightarrow> nat \<Rightarrow> js \<Rightarrow> error + js" where
  "prove_loop t 0 index branches = Inr branches"
| "prove_loop t (Suc i) index branches =
     (case level t (int (Suc i)) of
        None \<Rightarrow> Inl TypeError
      | Some lv \<Rightarrow>
          (let level_i = map toLowerCase lv;
               branches' = (if index mod 2 = 0
                            then JArr [branches, at_index level_i (index + 1)]
                            else JArr [at_index level_i (index - 1), branches])
           in prove_loop t i (index div 2) branches'))"

text \<open>The value that \<open>prove\<close> returns, as a function of the instance and the arguments.\<close>

definition prove_result :: "(string \<Rightarrow> string) \<Rightarrow> proof_obj \<Rightarrow> string \<Rightarrow> buffer \<Rightarrow> error + js" where
  "prove_result sha256 P challenge shard =
     (let input = challenge @ toString_hex shard;
          resp = sha256 input;
          hash = sha256 resp
      in case level (tree P) (levels (tree P) - 1) of
           None \<Rightarrow> Inl TypeError
         | Some leaves \<Rightarrow>
             (let index = indexOf leaves (toUpperCase hash);
                  branches = JArr [JStr resp]
              in if index = - 1 then Inr (JArr [])
                 else prove_loop (tree P) (nat (levels (tree P) - 1)) (nat index) branches))"

text \<open>
  The body of \<open>prove\<close> once more, statement by statement, on a state that holds the
  instance (\<open>this\<close>) and the local variables of the function. Each assignment of the
  source is one update of the state; the loop variable \<open>i\<close> is the counter of the
  recursion. \<open>index\<close> is a JavaScript number here (\<open>-1\<close> when the lookup fails).
\<close>

record prove_vars =
  this :: proof_obj
  v_input :: string
  v_resp :: string
  v_hash :: string
  v_leaves :: "string list"
  v_index :: int
  v_branches :: js
  v_level :: "string list"

fun prove_body_loop :: "nat \<Rightarrow> prove_vars \<Rightarrow> (error + js) \<times> prove_vars" where
  "prove_body_loop 0 s = (Inr (v_branches s), s)"
| "prove_body_loop (Suc i) s =
     (case level (tree (this s)) (int (Suc i)) of
        None \<Rightarrow> (Inl TypeError, s)
      | Some lv \<Rightarrow>
          (let s1 = s\<lparr>v_level := map toLowerCase lv\<rparr>;
               s2 = (if v_index s1 mod 2 = 0
                     then s1\<lparr>v_branches :=
                            JArr [v_branches s1, at_index (v_level s1) (nat (v_index s1 + 1))]\<rparr>
                     else s1\<lparr>v_branches :=
                            JArr [at_index (v_level s1) (nat (v_index s1 - 1)), v_branches s1]\<rparr>);
               s3 = s2\<lparr>v_index := v_index s2 div 2\<rparr>
           in prove_body_loop i s3))"

definition prove_body ::
  "(string \<Rightarrow> string) \<Rightarrow> prove_vars \<Rightarrow> string \<Rightarrow> buffer \<Rightarrow> (error + js) \<times> prove_vars" where
  "prove_body sha256 s0 challenge shard =
     (let s1 = s0\<lparr>v_input := challenge @ toString_hex shard\<rparr>;
          s2 = s1\<lparr>v_resp := sha256 (v_input s1)\<rparr>;
          s3 = s2\<lparr>v_hash := sha256 (v_resp s2)\<rparr>
      in case level (tree (this s3)) (levels (tree (this s3)) - 1) of
           None \<Rightarrow> (Inl TypeError, s3)
         | Some lv \<Rightarrow>
             (let s4 = s3\<lparr>v_leaves := lv\<rparr>;
                  s5 = s4\<lparr>v_index := indexOf (v_leaves s4) (toUpperCase (v_hash s4))\<rparr>;
                  s6 = s5\<lparr>v_branches := JArr [JStr (v_resp s5)]\<rparr>
              in if v_index s6 = - 1 then (Inr (JArr []), s6)
                 else prove_body_loop (nat (levels (tree (this s6)) - 1)) s6))"

text \<open>
  The state on entry: the instance the method is called on; the local variables are
  declared and not yet assigned (each one is assigned before it is read).
\<close>

definition entry :: "proof_obj \<Rightarrow> prove_vars" where
  "entry P =
     \<lparr>this = P, v_input = [], v_resp = [], v_hash = [], v_leaves = [], v_index = 0,
      v_branches = JUndefined, v_level = []\<rparr>"

text \<open>
  A call of the method: the value the body returns and the instance as the body
  leaves it.
\<close>

definition prove :: "(string \<Rightarrow> string) \<Rightarrow> proof_obj \<Rightarrow> string \<Rightarrow> buffer \<Rightarrow> (error + js) \<times> proof_obj" where
  "prove sha256 P challenge shard =
     (case prove_body sha256 (entry P) challenge shard of (r, s) \<Rightarrow> (r, this s))"

section \<open>The branch as the spec words it\<close>

text \<open>
  One step of the walk in the spec's words: on an even index the sibling is the next
  element and the running branch goes first; on an odd index the sibling is the
  previous element and the running branch goes second.
\<close>

definition nest :: "js \<Rightarrow> nat \<Rightarrow> string list \<Rightarrow> js" where
  "nest branch idx lv =
     (if even idx then JArr [branch, at_index lv (idx + 1)]
      else JArr [at_index lv (idx - 1), branch])"

text \<open>
  The whole walk: step \<open>k\<close> works on the level \<open>k\<close> rows above the deepest one, read
  in lower case as \<open>prove\<close> reads it, with the index of the leaf halved \<open>k\<close> times; it
  stops below the root row.
\<close>

definition walk :: "merkle_tree \<Rightarrow> nat \<Rightarrow> js \<Rightarrow> js" where
  "walk t i b =
     foldl (\<lambda>br k. nest br (i div 2 ^ k) (map toLowerCase (t ! (length t - 1 - k))))
       b [0..<length t - 1]"

text \<open>
  A stand-in for \<open>utils.sha256\<close> at concrete instances: 64 lower-case hexadecimal
  digits, the last two taken from the length of the input and from its last
  character. It is used in closed examples only; every general statement below holds
  for any function \<open>sha256\<close>.
\<close>

definition last_digit :: "string \<Rightarrow> char" where
  "last_digit s =
     (if s = [] then CHR ''0''
      else if last s \<in> set ''0123456789abcdef'' then last s else CHR ''f'')"

definition stub_sha256 :: "string \<Rightarrow> string" where
  "stub_sha256 s =
     ''aaaaaaaaaaaaaaaaaaaaaaaaaaaaaaaaaaaaaaaaaaaaaaaaaaaaaaaaaaaaaa''
       @ [hex_digit (length s), last_digit s]"

section \<open>Storage adapters\<close>

text \<open>
  Modelled from the spec: the adapters themselves (lib/storage/adapters/ram.js,
  lib/storage/adapters/level.js and lib/storage/adapters/level/filestore.js) are
  not among the sources; only their unit tests are. The definitions of this
  section follow sections 4.3 to 4.5 and 7 of the spec, and the unit tests where
  they fix a detail (the message of the not-found error, the stubs that make an
  engine operation fail).
\<close>

datatype storage_error =
    NotFoundError string
  | EngineError string

type_synonym key = string

record item_record =
  contracts :: "(string \<times> string) list"
  challenges :: "(string \<times> string) list"
  trees :: "(string \<times> string list) list"
  meta :: "(string \<times> string) list"

text \<open>
  Modelled from the spec: the \<open>shard\<close> field of an item handed out by \<open>get\<close>, a
  readable or a writable stream (section 9 of the spec: a tagged variant).
\<close>

datatype shard_stream =
    ReadableStream buffer
  | WritableStream

text \<open>Modelled from the spec: reading a stream to its end, the bytes a readable stream replays.\<close>

fun read_all :: "shard_stream \<Rightarrow> buffer option" where
  "read_all (ReadableStream b) = Some b"
| "read_all WritableStream = None"

subsection \<open>The in-memory adapter\<close>

text \<open>
  Modelled from the spec: the in-memory adapter (lib/storage/adapters/ram.js is not
  among the sources), section 4.5. Its two maps are the \<open>_items\<close> and \<open>_shards\<close> that
  the unit test fills; the message of the error is the one the unit test expects.
\<close>

record ram_adapter =
  items :: "key \<rightharpoonup> item_record"
  shards :: "key \<rightharpoonup> buffer"

definition ram_get :: "ram_adapter \<Rightarrow> key \<Rightarrow> storage_error + (item_record \<times> shard_stream)" where
  "ram_get store k =
     (case items store k of
        None \<Rightarrow> Inl (NotFoundError ''Shard data not found'')
      | Some item \<Rightarrow>
          (case shards store k of
             None \<Rightarrow> Inr (item, WritableStream)
           | Some b \<Rightarrow> Inr (item, ReadableStream b)))"

subsection \<open>The chunk records of the blob sub-store\<close>

text \<open>
  Modelled from the spec: the records of the blob sub-store
  (lib/storage/adapters/level/filestore.js is not among the sources), section 4.4.
  The payload is cut into records of a fixed size; the last one may be shorter. The
  size is a parameter; a size of 0 cannot cut anything and leaves the payload in one
  record.
\<close>

function chunk :: "nat \<Rightarrow> buffer \<Rightarrow> buffer list" where
  "chunk n bs =
     (if bs = [] then [] else if n = 0 then [bs] else take n bs # chunk n (drop n bs))"
  by pat_completeness auto
termination
  by (relation "measure (\<lambda>(n, bs). length bs)") auto

declare chunk.simps [simp del]

text \<open>Modelled from the spec: a chunk record, its key \<open>(fileId, chunkIndex)\<close> and its bytes.\<close>

type_synonym chunk_record = "(key \<times> nat) \<times> buffer"

definition file_records :: "key \<Rightarrow> chunk_record list \<Rightarrow> chunk_record list" where
  "file_records k recs = filter (\<lambda>r. fst (fst r) = k) recs"

text \<open>
  Modelled from the spec: writing a payload appends sequential chunk records after
  those the file already has.
\<close>

definition write_records :: "nat \<Rightarrow> key \<Rightarrow> buffer \<Rightarrow> chunk_record list \<Rightarrow> chunk_record list" where
  "write_records n k bs recs =
     (let start = length (file_records k recs);
          cs = chunk n bs
      in recs @ map (\<lambda>(i, c). ((k, i), c)) (zip [start..<start + length cs] cs))"

text \<open>
  Modelled from the spec: reading a payload replays the file's chunk records in index
  order and concatenates them.
\<close>

definition read_records :: "key \<Rightarrow> chunk_record list \<Rightarrow> buffer" where
  "read_records k recs =
     concat (map snd (sort_key (\<lambda>r. snd (fst r)) (file_records k recs)))"

subsection \<open>The durable adapter\<close>

text \<open>
  Modelled from the spec: the durable adapter (lib/storage/adapters/level.js is not
  among the sources), sections 4.3, 4.4 and 7: a metadata namespace \<open>db\<close> and the
  chunk records \<open>fs\<close> of the blob sub-store.
\<close>

record level_adapter =
  db :: "key \<rightharpoonup> item_record"
  fs :: "chunk_record list"

text \<open>
  Modelled from the spec: for \<open>delete\<close>, an engine operation either works or fails with
  an error of the engine. Which ones fail is given from outside, as the unit tests do
  with their stubs: a stubbed operation calls back with its error and does nothing
  else.
\<close>

record engine_faults =
  del_fault :: "storage_error option"
  reset_fault :: "storage_error option"

definition db_del ::
  "engine_faults \<Rightarrow> level_adapter \<Rightarrow> key \<Rightarrow> storage_error option \<times> level_adapter" where
  "db_del f s k =
     (case del_fault f of
        Some e \<Rightarrow> (Some e, s)
      | None \<Rightarrow> (None, s\<lparr>db := (db s)(k := None)\<rparr>))"

text \<open>Modelled from the spec: reset removes every chunk record of the file.\<close>

definition fs_reset ::
  "engine_faults \<Rightarrow> level_adapter \<Rightarrow> key \<Rightarrow> storage_error option \<times> level_adapter" where
  "fs_reset f s k =
     (case reset_fault f of
        Some e \<Rightarrow> (Some e, s)
      | None \<Rightarrow> (None, s\<lparr>fs := filter (\<lambda>r. fst (fst r) \<noteq> k) (fs s)\<rparr>))"

text \<open>
  Modelled from the spec: \<open>delete\<close> removes the metadata entry first, then resets the
  blob. An error stops the operation where it occurs and is handed to the caller as
  it is.
\<close>

definition level_del ::
  "engine_faults \<Rightarrow> level_adapter \<Rightarrow> key \<Rightarrow> storage_error option \<times> level_adapter" where
  "level_del f s k =
     (case db_del f s k of
        (Some e, s1) \<Rightarrow> (Some e, s1)
      | (None, s1) \<Rightarrow> fs_reset f s1 k)"

text \<open>
  Modelled from the spec: for \<open>put\<close> and \<open>get\<close>, the engine answers call by call. For
  each of its four operations (the write and the read of a metadata entry, the write
  and the read of a payload) the list holds what the next calls will answer, in
  order: an error, or \<open>None\<close> when the call works; past the end of the list every
  call works. Each call takes one answer off its list, so the lists that are left
  tell how often the adapter has called the engine.
\<close>

record engine_calls =
  put_calls :: "storage_error option list"
  get_calls :: "storage_error option list"
  write_calls :: "storage_error option list"
  read_calls :: "storage_error option list"

fun answer :: "storage_error option list \<Rightarrow> storage_error option" where
  "answer [] = None"
| "answer (a # as) = a"

fun later :: "storage_error option list \<Rightarrow> storage_error option list" where
  "later [] = []"
| "later (a # as) = as"

definition db_put ::
  "engine_calls \<Rightarrow> level_adapter \<Rightarrow> key \<Rightarrow> item_record
     \<Rightarrow> storage_error option \<times> level_adapter \<times> engine_calls" where
  "db_put c s k v =
     (case answer (put_calls c) of
        Some e \<Rightarrow> (Some e, s, c\<lparr>put_calls := later (put_calls c)\<rparr>)
      | None \<Rightarrow> (None, s\<lparr>db := (db s)(k \<mapsto> v)\<rparr>, c\<lparr>put_calls := later (put_calls c)\<rparr>))"

definition db_get ::
  "engine_calls \<Rightarrow> level_adapter \<Rightarrow> key \<Rightarrow> (storage_error + item_record) \<times> engine_calls" where
  "db_get c s k =
     (case answer (get_calls c) of
        Some e \<Rightarrow> (Inl e, c\<lparr>get_calls := later (get_calls c)\<rparr>)
      | None \<Rightarrow>
          (case db s k of
             None \<Rightarrow> (Inl (NotFoundError ''Not found''), c\<lparr>get_calls := later (get_calls c)\<rparr>)
           | Some v \<Rightarrow> (Inr v, c\<lparr>get_calls := later (get_calls c)\<rparr>)))"

definition fs_write ::
  "engine_calls \<Rightarrow> nat \<Rightarrow> level_adapter \<Rightarrow> key \<Rightarrow> buffer
     \<Rightarrow> storage_error option \<times> level_adapter \<times> engine_calls" where
  "fs_write c n s k bs =
     (case answer (write_calls c) of
        Some e \<Rightarrow> (Some e, s, c\<lparr>write_calls := later (write_calls c)\<rparr>)
      | None \<Rightarrow>
          (None, s\<lparr>fs := write_records n k bs (fs s)\<rparr>,
           c\<lparr>write_calls := later (write_calls c)\<rparr>))"

definition fs_read ::
  "engine_calls \<Rightarrow> level_adapter \<Rightarrow> key \<Rightarrow> (storage_error + buffer) \<times> engine_calls" where
  "fs_read c s k =
     (case answer (read_calls c) of
        Some e \<Rightarrow> (Inl e, c\<lparr>read_calls := later (read_calls c)\<rparr>)
      | None \<Rightarrow> (Inr (read_records k (fs s)), c\<lparr>read_calls := later (read_calls c)\<rparr>))"

text \<open>
  Modelled from the spec: \<open>put\<close> writes the metadata first, then the payload if the
  item carries one. \<open>get\<close> reads the metadata, then the payload, which it hands out as
  a readable stream. An error of the engine stops the operation where it occurs and
  is handed to the caller as it is; the engine is not called again.
\<close>

definition level_put ::
  "engine_calls \<Rightarrow> nat \<Rightarrow> level_adapter \<Rightarrow> key \<Rightarrow> item_record \<Rightarrow> buffer option
     \<Rightarrow> storage_error option \<times> level_adapter \<times> engine_calls" where
  "level_put c n s k item shard =
     (case db_put c s k item of
        (Some e, s1, c1) \<Rightarrow> (Some e, s1, c1)
      | (None, s1, c1) \<Rightarrow>
          (case shard of
             None \<Rightarrow> (None, s1, c1)
           | Some bs \<Rightarrow> fs_write c1 n s1 k bs))"

definition level_get ::
  "engine_calls \<Rightarrow> level_adapter \<Rightarrow> key
     \<Rightarrow> (storage_error + (item_record \<times> shard_stream)) \<times> engine_calls" where
  "level_get c s k =
     (case db_get c s k of
        (Inl e, c1) \<Rightarrow> (Inl e, c1)
      | (Inr item, c1) \<Rightarrow>
          (case fs_read c1 s k of
             (Inl e, c2) \<Rightarrow> (Inl e, c2)
           | (Inr bs, c2) \<Rightarrow> (Inr (item, ReadableStream bs), c2)))"

section \<open>Letter case\<close>

lemma toLowerCase_toUpperCase_char: "toLowerCase_char (toUpperCase_char c) = toLowerCase_char c"
  unfolding toUpperCase_char_def toLowerCase_char_def Let_def
  by (auto simp: of_char_of)

lemma toLowerCase_toUpperCase: "toLowerCase (toUpperCase s) = toLowerCase s"
  by (simp add: toUpperCase_def toLowerCase_def toLowerCase_toUpperCase_char)

section \<open>Array search and the rows of a tree\<close>

lemma indexOf_ge: "- 1 \<le> indexOf xs x"
  by (induction xs) (auto simp: Let_def)

lemma indexOf_absent: "indexOf xs x = - 1 \<longleftrightarrow> x \<notin> set xs"
proof (induction xs)
  case Nil
  show ?case by simp
next
  case (Cons y ys)
  have "- 1 \<le> indexOf ys x" by (rule indexOf_ge)
  with Cons show ?case by (auto simp: Let_def)
qed

lemma level_last: "t \<noteq> [] \<Longrightarrow> level t (levels t - 1) = Some (last t)"
  by (cases t rule: rev_cases) (simp_all add: level_def levels_def)

lemma level_in: "i < length t \<Longrightarrow> level t (int i) = Some (t ! i)"
  by (simp add: level_def)

lemma steps_last: "t \<noteq> [] \<Longrightarrow> nat (levels t - 1) = length t - 1"
  by (simp add: levels_def)

section \<open>The loop of prove\<close>

lemma prove_loop_step:
  assumes "Suc n < length t"
  shows "prove_loop t (Suc n) idx b =
      prove_loop t n (idx div 2) (nest b idx (map toLowerCase (t ! Suc n)))"
proof -
  have lv: "level t (int (Suc n)) = Some (t ! Suc n)"
    using assms by (rule level_in)
  show ?thesis
    unfolding prove_loop.simps lv
    by (simp add: Let_def nest_def even_iff_mod_2_eq_zero)
qed

lemma prove_loop_walk:
  "n < length t \<Longrightarrow>
   prove_loop t n idx b =
     Inr (foldl (\<lambda>br k. nest br (idx div 2 ^ k) (map toLowerCase (t ! (n - k)))) b [0..<n])"
proof (induction n arbitrary: idx b)
  case 0
  show ?case by simp
next
  case (Suc n)
  have n: "n < length t" using Suc.prems by simp
  have shift: "[0..<Suc n] = 0 # map Suc [0..<n]"
    by (simp add: upt_conv_Cons map_Suc_upt del: upt_Suc)
  have half: "\<And>k. idx div 2 div 2 ^ k = idx div 2 ^ Suc k"
    by (simp add: div_mult2_eq)
  show ?case
    unfolding prove_loop_step [OF Suc.prems] shift Suc.IH [OF n]
    by (simp add: foldl_map half del: upt_Suc)
qed

lemma prove_result_found:
  assumes t: "tree P \<noteq> []"
    and i: "indexOf (last (tree P)) (toUpperCase (sha256 (sha256 (c @ toString_hex b)))) = int i"
  shows "prove_result sha256 P c b =
           prove_loop (tree P) (length (tree P) - 1) i (JArr [JStr (sha256 (c @ toString_hex b))])"
  by (simp add: prove_result_def Let_def level_last [OF t] steps_last [OF t] i)

lemma prove_result_absent:
  assumes t: "tree P \<noteq> []"
    and i: "toUpperCase (sha256 (sha256 (c @ toString_hex b))) \<notin> set (last (tree P))"
  shows "prove_result sha256 P c b = Inr (JArr [])"
  using i by (simp add: prove_result_def Let_def level_last [OF t] indexOf_absent)

text \<open>
  On a tree whose deepest level holds lower-case strings, \<open>prove\<close> returns the empty
  array for every digest that has a letter in it, whatever the leaves.
\<close>

lemma prove_result_lower_case_tree:
  assumes t: "tree P \<noteq> []"
    and low: "\<forall>l\<in>set (last (tree P)). toLowerCase l = l"
    and letter: "toUpperCase (sha256 (sha256 (c @ toString_hex b)))
                   \<noteq> toLowerCase (sha256 (sha256 (c @ toString_hex b)))"
  shows "prove_result sha256 P c b = Inr (JArr [])"
proof -
  let ?hash = "sha256 (sha256 (c @ toString_hex b))"
  have "toUpperCase ?hash \<notin> set (last (tree P))"
  proof
    assume "toUpperCase ?hash \<in> set (last (tree P))"
    with low have "toLowerCase (toUpperCase ?hash) = toUpperCase ?hash" by blast
    with letter show False by (simp add: toLowerCase_toUpperCase)
  qed
  with t show ?thesis by (rule prove_result_absent)
qed

section \<open>The body of prove, statement by statement\<close>

lemma prove_body_loop_this: "this (snd (prove_body_loop n s)) = this s"
proof (induction n arbitrary: s)
  case 0
  show ?case by simp
next
  case (Suc n)
  show ?case
  proof (cases "level (tree (this s)) (int (Suc n))")
    case None
    then show ?thesis by simp
  next
    case (Some lv)
    then show ?thesis by (simp add: Let_def Suc.IH)
  qed
qed

lemma prove_body_loop_result:
  "0 \<le> v_index s \<Longrightarrow>
   fst (prove_body_loop n s) = prove_loop (tree (this s)) n (nat (v_index s)) (v_branches s)"
proof (induction n arbitrary: s)
  case 0
  show ?case by simp
next
  case (Suc n)
  let ?i = "v_index s"
  show ?case
  proof (cases "level (tree (this s)) (int (Suc n))")
    case None
    then show ?thesis by simp
  next
    case (Some lv)
    from Suc.prems obtain m where m: "?i = int m"
      using zero_le_imp_eq_int by blast
    have par: "(?i mod 2 = 0) = (nat ?i mod 2 = 0)"
      unfolding m by (simp flip: even_iff_mod_2_eq_zero)
    have half: "nat (?i div 2) = nat ?i div 2"
      using Suc.prems by (simp add: nat_div_distrib)
    have up: "nat (?i + 1) = nat ?i + 1" using Suc.prems by simp
    have down: "nat (?i - 1) = nat ?i - 1" using Suc.prems by simp
    have nonneg: "0 \<le> ?i div 2" using Suc.prems by simp
    show ?thesis
    proof (cases "?i mod 2 = 0")
      case True
      with par have p: "nat ?i mod 2 = 0" by simp
      let ?s3 = "s\<lparr>v_level := map toLowerCase lv,
                    v_branches := JArr [v_branches s, at_index (map toLowerCase lv) (nat (?i + 1))],
                    v_index := ?i div 2\<rparr>"
      have "0 \<le> v_index ?s3" using nonneg by simp
      from Suc.IH [OF this] Some True p show ?thesis
        by (simp add: Let_def half up)
    next
      case False
      with par have p: "nat ?i mod 2 \<noteq> 0" by simp
      let ?s3 = "s\<lparr>v_level := map toLowerCase lv,
                    v_branches := JArr [at_index (map toLowerCase lv) (nat (?i - 1)), v_branches s],
                    v_index := ?i div 2\<rparr>"
      have "0 \<le> v_index ?s3" using nonneg by simp
      from Suc.IH [OF this] Some False p show ?thesis
        by (simp add: Let_def half down)
    qed
  qed
qed

lemma prove_body_this: "this (snd (prove_body sha256 s c b)) = this s"
proof (cases "level (tree (this s)) (levels (tree (this s)) - 1)")
  case None
  then show ?thesis by (simp add: prove_body_def Let_def)
next
  case (Some lv)
  then show ?thesis by (simp add: prove_body_def Let_def prove_body_loop_this)
qed

lemma snd_prove: "snd (prove sha256 P c b) = P"
proof -
  have "this (snd (prove_body sha256 (entry P) c b)) = this (entry P)"
    by (rule prove_body_this)
  then show ?thesis
    by (cases "prove_body sha256 (entry P) c b") (simp add: prove_def entry_def)
qed

lemma fst_prove: "fst (prove sha256 P c b) = prove_result sha256 P c b"
proof -
  have "fst (prove_body sha256 (entry P) c b) = prove_result sha256 P c b"
  proof (cases "level (tree P) (levels (tree P) - 1)")
    case None
    then show ?thesis by (simp add: prove_body_def prove_result_def entry_def Let_def)
  next
    case (Some lv)
    let ?idx = "indexOf lv (toUpperCase (sha256 (sha256 (c @ toString_hex b))))"
    show ?thesis
    proof (cases "?idx = - 1")
      case True
      with Some show ?thesis by (simp add: prove_body_def prove_result_def entry_def Let_def)
    next
      case False
      have "- 1 \<le> ?idx" by (rule indexOf_ge)
      with False have "0 \<le> ?idx" by simp
      with Some False show ?thesis
        by (simp add: prove_body_def prove_result_def entry_def Let_def prove_body_loop_result)
    qed
  qed
  then show ?thesis
    by (cases "prove_body sha256 (entry P) c b") (simp add: prove_def)
qed

section \<open>The rows built by the merkle package\<close>

lemma length_compute: "length (compute h d row) = Suc d"
  by (induction d arbitrary: row) simp_all

lemma merkle_sync_nonempty: "merkle_sync h ls \<noteq> []"
proof -
  have "length (merkle_sync h ls) \<noteq> 0"
    by (simp add: merkle_sync_def Let_def length_compute)
  then show ?thesis by fastforce
qed

lemma map_leaves_strings: "map_leaves (map JStr ss) = Inr (map toLowerCase ss)"
  by (induction ss) simp_all

lemma Proof_Inr:
  assumes "Proof h x = Inr P"
  obtains ls ss where "x = JArr ls" "map_leaves ls = Inr ss" "tree P = merkle_sync h ss"
  using assms by (cases x) (auto split: sum.splits)

lemma Proof_tree_nonempty: "Proof h x = Inr P \<Longrightarrow> tree P \<noteq> []"
  by (erule Proof_Inr) (simp add: merkle_sync_nonempty)

lemma Proof_strings:
  "Proof h (JArr (map JStr ss)) = Inr \<lparr>tree = merkle_sync h (map toLowerCase ss)\<rparr>"
  by (simp add: map_leaves_strings)

section \<open>Evaluation of closed instances\<close>

lemma upper_tab:
  "toUpperCase_char (CHR ''a'') = CHR ''A''"
  "toUpperCase_char (CHR ''A'') = CHR ''A''"
  "toUpperCase_char (CHR ''0'') = CHR ''0''"
  "toUpperCase_char (CHR ''1'') = CHR ''1''"
  "toUpperCase_char (CHR ''2'') = CHR ''2''"
  by code_simp+

lemma lower_tab:
  "toLowerCase_char (CHR ''a'') = CHR ''a''"
  "toLowerCase_char (CHR ''A'') = CHR ''a''"
  "toLowerCase_char (CHR ''0'') = CHR ''0''"
  "toLowerCase_char (CHR ''1'') = CHR ''1''"
  "toLowerCase_char (CHR ''2'') = CHR ''2''"
  by code_simp+

lemma prove_loop_numeral:
  "prove_loop t (numeral k) idx b = prove_loop t (Suc (pred_numeral k)) idx b"
  by (simp only: numeral_eq_Suc)

lemmas eval_defs = prove_loop_numeral upper_tab lower_tab toUpperCase_def toLowerCase_def
  stub_sha256_def hex_digit_def last_digit_def toString_hex_def is_hash_def feed_def
  merkle_sync_def depth_def depth_from.simps Let_def level_def levels_def at_index_def

section \<open>The claims about the proof engine\<close>

text \<open>
  C2. When the derived leaf hash is not among the leaves of the tree (the strings of
  its deepest level, compared without regard to letter case), \<open>prove\<close> raises nothing
  and returns the empty array.
\<close>

theorem prove_rejects:
  assumes "Proof sha256 x = Inr P"
    and "\<forall>l\<in>set (last (tree P)).
           toLowerCase l \<noteq> toLowerCase (sha256 (sha256 (c @ toString_hex b)))"
  shows "fst (prove sha256 P c b) = Inr (JArr [])"
proof -
  let ?hash = "sha256 (sha256 (c @ toString_hex b))"
  have ne: "tree P \<noteq> []" using assms(1) by (rule Proof_tree_nonempty)
  have "toUpperCase ?hash \<notin> set (last (tree P))"
  proof
    assume "toUpperCase ?hash \<in> set (last (tree P))"
    with assms(2) have "toLowerCase (toUpperCase ?hash) \<noteq> toLowerCase ?hash" by blast
    then show False by (simp add: toLowerCase_toUpperCase)
  qed
  with ne have "prove_result sha256 P c b = Inr (JArr [])" by (rule prove_result_absent)
  then show ?thesis by (simp add: fst_prove)
qed

theorem prove_rejects_witness:
  "fst (prove stub_sha256
         \<lparr>tree = merkle_sync stub_sha256
            (map toLowerCase
              [''0000000000000000000000000000000000000000000000000000000000000000'',
               ''2222222222222222222222222222222222222222222222222222222222222222''])\<rparr>
         ''c1'' []) = Inr (JArr [])"
proof -
  let ?ss = "[''0000000000000000000000000000000000000000000000000000000000000000'',
              ''2222222222222222222222222222222222222222222222222222222222222222'']"
  let ?P = "\<lparr>tree = merkle_sync stub_sha256 (map toLowerCase ?ss)\<rparr>"
  have h1: "Proof stub_sha256 (JArr (map JStr ?ss)) = Inr ?P"
    by (rule Proof_strings)
  have h2: "\<forall>l\<in>set (last (tree ?P)).
      toLowerCase l \<noteq> toLowerCase (stub_sha256 (stub_sha256 (''c1'' @ toString_hex [])))"
    by (simp add: eval_defs)
  from prove_rejects [OF h1 h2] show ?thesis .
qed

text \<open>
  C3. On a tree built from exactly one leaf the loop of \<open>prove\<close> has no level to work
  on (its counter starts at 0), and a call that finds its digest returns \<open>[resp]\<close>.
\<close>

theorem prove_single_leaf:
  assumes "Proof sha256 (JArr [leaf]) = Inr P"
    and "indexOf (last (tree P)) (toUpperCase (sha256 (sha256 (c @ toString_hex b)))) \<noteq> - 1"
  shows "nat (levels (tree P) - 1) = 0 \<and>
         fst (prove sha256 P c b) = Inr (JArr [JStr (sha256 (c @ toString_hex b))])"
proof -
  from assms(1) obtain s where s: "leaf = JStr s"
    by (cases leaf) simp_all
  have d: "depth_from 0 (Suc 0) = 0" by (simp add: depth_from.simps)
  from assms(1) have t: "tree P = [[feed sha256 (toLowerCase s)]]"
    by (auto simp: s merkle_sync_def depth_def d)
  from assms(2) show ?thesis
    by (simp add: t fst_prove prove_result_def level_def levels_def)
qed

theorem prove_single_leaf_witness:
  "nat (levels (merkle_sync stub_sha256
          (map toLowerCase [stub_sha256 (stub_sha256 (''c1'' @ toString_hex []))])) - 1) = 0 \<and>
   fst (prove stub_sha256
         \<lparr>tree = merkle_sync stub_sha256
            (map toLowerCase [stub_sha256 (stub_sha256 (''c1'' @ toString_hex []))])\<rparr>
         ''c1'' []) = Inr (JArr [JStr (stub_sha256 (''c1'' @ toString_hex []))])"
proof -
  let ?ss = "[stub_sha256 (stub_sha256 (''c1'' @ toString_hex []))]"
  let ?P = "\<lparr>tree = merkle_sync stub_sha256 (map toLowerCase ?ss)\<rparr>"
  have "Proof stub_sha256 (JArr (map JStr ?ss)) = Inr ?P"
    by (rule Proof_strings)
  then have h1: "Proof stub_sha256 (JArr [JStr (stub_sha256 (stub_sha256 (''c1'' @ toString_hex [])))])
      = Inr ?P"
    by simp
  have h2: "indexOf (last (tree ?P))
      (toUpperCase (stub_sha256 (stub_sha256 (''c1'' @ toString_hex [])))) \<noteq> - 1"
    by (simp add: eval_defs)
  from prove_single_leaf [OF h1 h2] show ?thesis by simp
qed

text \<open>
  C4. When the digest is found at index \<open>i\<close> of the deepest level, the branch is the
  walk of the spec: from the deepest level up to level 1, at each level the running
  branch is paired with its sibling by the parity of the current index (first on an
  even index, with the element at index + 1; second on an odd index, with the
  element at index - 1), and the index is halved.
\<close>

theorem prove_walk:
  assumes "Proof sha256 x = Inr P"
    and "indexOf (last (tree P)) (toUpperCase (sha256 (sha256 (c @ toString_hex b)))) = int i"
  shows "fst (prove sha256 P c b) =
           Inr (walk (tree P) i (JArr [JStr (sha256 (c @ toString_hex b))]))"
proof -
  have ne: "tree P \<noteq> []" using assms(1) by (rule Proof_tree_nonempty)
  then have lt: "length (tree P) - 1 < length (tree P)" by simp
  have "prove_result sha256 P c b =
      prove_loop (tree P) (length (tree P) - 1) i (JArr [JStr (sha256 (c @ toString_hex b))])"
    using ne assms(2) by (rule prove_result_found)
  also have "\<dots> = Inr (walk (tree P) i (JArr [JStr (sha256 (c @ toString_hex b))]))"
    unfolding walk_def by (rule prove_loop_walk [OF lt])
  finally show ?thesis by (simp add: fst_prove)
qed

theorem prove_walk_witness:
  "fst (prove stub_sha256
         \<lparr>tree = merkle_sync stub_sha256
            (map toLowerCase
              [''0000000000000000000000000000000000000000000000000000000000000000'',
               stub_sha256 (stub_sha256 (''c1'' @ toString_hex []))])\<rparr>
         ''c1'' [])
   = Inr (JArr [JStr ''0000000000000000000000000000000000000000000000000000000000000000'',
                JArr [JStr ''aaaaaaaaaaaaaaaaaaaaaaaaaaaaaaaaaaaaaaaaaaaaaaaaaaaaaaaaaaaaaa21'']])"
proof -
  let ?ss = "[''0000000000000000000000000000000000000000000000000000000000000000'',
              stub_sha256 (stub_sha256 (''c1'' @ toString_hex []))]"
  let ?P = "\<lparr>tree = merkle_sync stub_sha256 (map toLowerCase ?ss)\<rparr>"
  have h1: "Proof stub_sha256 (JArr (map JStr ?ss)) = Inr ?P"
    by (rule Proof_strings)
  have h2: "indexOf (last (tree ?P))
      (toUpperCase (stub_sha256 (stub_sha256 (''c1'' @ toString_hex [])))) = int 1"
    by (simp add: eval_defs)
  have w: "walk (tree ?P) 1 (JArr [JStr (stub_sha256 (''c1'' @ toString_hex []))])
      = JArr [JStr ''0000000000000000000000000000000000000000000000000000000000000000'',
              JArr [JStr ''aaaaaaaaaaaaaaaaaaaaaaaaaaaaaaaaaaaaaaaaaaaaaaaaaaaaaaaaaaaaaa21'']]"
    by (simp add: eval_defs walk_def nest_def)
  from prove_walk [OF h1 h2] show ?thesis by (simp only: w)
qed

text \<open>
  C5, as amended. The constructor fails with the assertion error on every input that
  is not an array; on every array whose elements are all strings it succeeds, with
  the tree built at once from the lower-cased leaves.
\<close>

theorem Proof_constructor:
  "((\<forall>ls. x \<noteq> JArr ls) \<longrightarrow>
      Proof sha256 x = Inl (AssertionError ''Merkle leaves must be an array'')) \<and>
   Proof sha256 (JArr (map JStr ss)) = Inr \<lparr>tree = merkle_sync sha256 (map toLowerCase ss)\<rparr>"
proof (intro conjI impI)
  assume "\<forall>ls. x \<noteq> JArr ls"
  then show "Proof sha256 x = Inl (AssertionError ''Merkle leaves must be an array'')"
    by (cases x) simp_all
next
  show "Proof sha256 (JArr (map JStr ss)) = Inr \<lparr>tree = merkle_sync sha256 (map toLowerCase ss)\<rparr>"
    by (rule Proof_strings)
qed

theorem Proof_constructor_witness:
  "Proof stub_sha256 (JStr ''ab'') = Inl (AssertionError ''Merkle leaves must be an array'') \<and>
   Proof stub_sha256 (JArr (map JStr [''AB'']))
     = Inr \<lparr>tree = merkle_sync stub_sha256 (map toLowerCase [''AB''])\<rparr>"
  using Proof_constructor [of "JStr ''ab''" stub_sha256 "[''AB'']"]
  by simp

text \<open>
  C5 as the spec states it fails: an array is not enough for the constructor to
  succeed. On the array \<open>[1]\<close> it fails, and not with the assertion error.
\<close>

theorem Proof_constructor_counterexample:
  "Proof stub_sha256 (JArr [JNum 1]) = Inl TypeError"
  by simp

text \<open>
  C10. Whatever the instance and the arguments, the body of \<open>prove\<close> leaves the
  instance as it found it, and a second call with the same arguments on the instance
  left by the first returns the same result.
\<close>

theorem prove_pure:
  "snd (prove sha256 P c b) = P \<and>
   fst (prove sha256 (snd (prove sha256 P c b)) c b) = fst (prove sha256 P c b)"
  by (simp add: snd_prove)

theorem prove_pure_witness:
  "snd (prove stub_sha256
         \<lparr>tree = [[''0000000000000000000000000000000000000000000000000000000000000000'']]\<rparr>
         ''c1'' [7])
   = \<lparr>tree = [[''0000000000000000000000000000000000000000000000000000000000000000'']]\<rparr>"
  using prove_pure [of stub_sha256
      "\<lparr>tree = [[''0000000000000000000000000000000000000000000000000000000000000000'']]\<rparr>"
      "''c1''" "[7]"]
  by simp

section \<open>The storage adapters\<close>

text \<open>
  C6. \<open>get\<close> of the in-memory adapter has three outcomes: the not-found error when
  there is no item record; a writable stream when there is an item record without
  shard bytes; a readable stream that replays the stored bytes when there are shard
  bytes.
\<close>

theorem ram_get_cases:
  "(items store k = None \<longrightarrow> ram_get store k = Inl (NotFoundError ''Shard data not found'')) \<and>
   (items store k = Some item \<and> shards store k = None \<longrightarrow>
      ram_get store k = Inr (item, WritableStream)) \<and>
   (items store k = Some item \<and> shards store k = Some b \<longrightarrow>
      ram_get store k = Inr (item, ReadableStream b) \<and> read_all (ReadableStream b) = Some b)"
  by (simp add: ram_get_def)

theorem ram_get_cases_witness:
  "ram_get \<lparr>items = Map.empty, shards = Map.empty\<rparr> ''c527'' =
     Inl (NotFoundError ''Shard data not found'') \<and>
   ram_get \<lparr>items = [''c527'' \<mapsto> \<lparr>contracts = [], challenges = [], trees = [], meta = []\<rparr>],
            shards = Map.empty\<rparr> ''c527'' =
     Inr (\<lparr>contracts = [], challenges = [], trees = [], meta = []\<rparr>, WritableStream) \<and>
   ram_get \<lparr>items = [''c527'' \<mapsto> \<lparr>contracts = [], challenges = [], trees = [], meta = []\<rparr>],
            shards = [''c527'' \<mapsto> [104, 105]]\<rparr> ''c527'' =
     Inr (\<lparr>contracts = [], challenges = [], trees = [], meta = []\<rparr>, ReadableStream [104, 105])"
  using
    ram_get_cases [of "\<lparr>items = Map.empty, shards = Map.empty\<rparr>" "''c527''"]
    ram_get_cases [of "\<lparr>items = [''c527'' \<mapsto> \<lparr>contracts = [], challenges = [], trees = [], meta = []\<rparr>],
            shards = Map.empty\<rparr>" "''c527''" "\<lparr>contracts = [], challenges = [], trees = [], meta = []\<rparr>"]
    ram_get_cases [of "\<lparr>items = [''c527'' \<mapsto> \<lparr>contracts = [], challenges = [], trees = [], meta = []\<rparr>],
            shards = [''c527'' \<mapsto> [104, 105]]\<rparr>" "''c527''"
            "\<lparr>contracts = [], challenges = [], trees = [], meta = []\<rparr>" "[104, 105]"]
  by simp

text \<open>
  C7. \<open>delete\<close> removes the metadata entry first and resets the blob second. A failure
  of the metadata delete is reported and leaves the adapter, the blob included, as
  it was. A failure of the reset is reported with the metadata entry already gone.
  When both succeed, \<open>delete\<close> succeeds, and neither the entry nor a chunk record of the
  file is left.
\<close>

theorem level_del_cases:
  "(del_fault f = Some e \<longrightarrow> level_del f s k = (Some e, s)) \<and>
   (del_fault f = None \<and> reset_fault f = Some e \<longrightarrow>
      fst (level_del f s k) = Some e \<and> db (snd (level_del f s k)) k = None \<and>
      fs (snd (level_del f s k)) = fs s) \<and>
   (del_fault f = None \<and> reset_fault f = None \<longrightarrow>
      fst (level_del f s k) = None \<and> db (snd (level_del f s k)) k = None \<and>
      file_records k (fs (snd (level_del f s k))) = [])"
  by (auto simp: level_del_def db_del_def fs_reset_def file_records_def filter_empty_conv)

theorem level_del_cases_witness:
  "level_del \<lparr>del_fault = Some (EngineError ''Failed to delete''),
               reset_fault = None\<rparr>
     \<lparr>db = [''5e52'' \<mapsto> \<lparr>contracts = [], challenges = [], trees = [], meta = []\<rparr>],
      fs = [((''5e52'', 0), [116, 101, 115, 116])]\<rparr> ''5e52''
   = (Some (EngineError ''Failed to delete''),
      \<lparr>db = [''5e52'' \<mapsto> \<lparr>contracts = [], challenges = [], trees = [], meta = []\<rparr>],
       fs = [((''5e52'', 0), [116, 101, 115, 116])]\<rparr>) \<and>
   fst (level_del \<lparr>del_fault = None,
               reset_fault = Some (EngineError ''Failed to delete'')\<rparr>
     \<lparr>db = [''5e52'' \<mapsto> \<lparr>contracts = [], challenges = [], trees = [], meta = []\<rparr>],
      fs = [((''5e52'', 0), [116, 101, 115, 116])]\<rparr> ''5e52'')
   = Some (EngineError ''Failed to delete'') \<and>
   fst (level_del \<lparr>del_fault = None,
               reset_fault = None\<rparr>
     \<lparr>db = [''5e52'' \<mapsto> \<lparr>contracts = [], challenges = [], trees = [], meta = []\<rparr>],
      fs = [((''5e52'', 0), [116, 101, 115, 116])]\<rparr> ''5e52'')
   = None"
  using
    level_del_cases [of "\<lparr>del_fault = Some (EngineError ''Failed to delete''),
               reset_fault = None\<rparr>" "EngineError ''Failed to delete''"
      "\<lparr>db = [''5e52'' \<mapsto> \<lparr>contracts = [], challenges = [], trees = [], meta = []\<rparr>],
      fs = [((''5e52'', 0), [116, 101, 115, 116])]\<rparr>" "''5e52''"]
    level_del_cases [of "\<lparr>del_fault = None,
               reset_fault = Some (EngineError ''Failed to delete'')\<rparr>"
      "EngineError ''Failed to delete''"
      "\<lparr>db = [''5e52'' \<mapsto> \<lparr>contracts = [], challenges = [], trees = [], meta = []\<rparr>],
      fs = [((''5e52'', 0), [116, 101, 115, 116])]\<rparr>" "''5e52''"]
    level_del_cases [of "\<lparr>del_fault = None,
               reset_fault = None\<rparr>" "EngineError []"
      "\<lparr>db = [''5e52'' \<mapsto> \<lparr>contracts = [], challenges = [], trees = [], meta = []\<rparr>],
      fs = [((''5e52'', 0), [116, 101, 115, 116])]\<rparr>" "''5e52''"]
  by simp

text \<open>
  C9. When an engine operation fails during \<open>put\<close> (the write of the metadata, or the
  write of the payload after it) or during \<open>get\<close> (the read of the metadata, or the
  read of the payload after it), the adapter hands the caller that same error, and
  it has called the failed operation once: of the answers the engine holds ready,
  only the failing one is used up, also when the next one would have been a success.
\<close>

theorem level_errors_verbatim:
  "(answer (put_calls c) = Some e \<longrightarrow>
      level_put c n s k item shard = (Some e, s, c\<lparr>put_calls := later (put_calls c)\<rparr>)) \<and>
   (answer (put_calls c) = None \<and> answer (write_calls c) = Some e \<longrightarrow>
      fst (level_put c n s k item (Some bs)) = Some e \<and>
      snd (snd (level_put c n s k item (Some bs)))
        = c\<lparr>put_calls := later (put_calls c), write_calls := later (write_calls c)\<rparr>) \<and>
   (answer (get_calls c) = Some e \<longrightarrow>
      level_get c s k = (Inl e, c\<lparr>get_calls := later (get_calls c)\<rparr>)) \<and>
   (answer (get_calls c) = None \<and> db s k = Some item \<and> answer (read_calls c) = Some e \<longrightarrow>
      level_get c s k
        = (Inl e, c\<lparr>get_calls := later (get_calls c), read_calls := later (read_calls c)\<rparr>))"
  by (simp add: level_put_def level_get_def db_put_def db_get_def fs_write_def fs_read_def)

theorem level_errors_verbatim_witness:
  "level_put \<lparr>put_calls = [Some (EngineError ''Failed''), None], get_calls = [],
               write_calls = [], read_calls = []\<rparr> 4
     \<lparr>db = Map.empty, fs = []\<rparr> ''5e52''
     \<lparr>contracts = [], challenges = [], trees = [], meta = []\<rparr> (Some [116, 101, 115, 116])
   = (Some (EngineError ''Failed''), \<lparr>db = Map.empty, fs = []\<rparr>,
      \<lparr>put_calls = [None], get_calls = [], write_calls = [], read_calls = []\<rparr>) \<and>
   fst (level_put \<lparr>put_calls = [], get_calls = [],
               write_calls = [Some (EngineError ''Failed''), None], read_calls = []\<rparr> 4
     \<lparr>db = Map.empty, fs = []\<rparr> ''5e52''
     \<lparr>contracts = [], challenges = [], trees = [], meta = []\<rparr> (Some [116, 101, 115, 116]))
   = Some (EngineError ''Failed'') \<and>
   level_get \<lparr>put_calls = [], get_calls = [Some (EngineError ''Not found''), None],
               write_calls = [], read_calls = []\<rparr>
     \<lparr>db = [''5e52'' \<mapsto> \<lparr>contracts = [], challenges = [], trees = [], meta = []\<rparr>],
      fs = [((''5e52'', 0), [116, 101, 115, 116])]\<rparr> ''5e52''
   = (Inl (EngineError ''Not found''),
      \<lparr>put_calls = [], get_calls = [None], write_calls = [], read_calls = []\<rparr>) \<and>
   level_get \<lparr>put_calls = [], get_calls = [],
               write_calls = [], read_calls = [Some (EngineError ''Failed''), None]\<rparr>
     \<lparr>db = [''5e52'' \<mapsto> \<lparr>contracts = [], challenges = [], trees = [], meta = []\<rparr>],
      fs = [((''5e52'', 0), [116, 101, 115, 116])]\<rparr> ''5e52''
   = (Inl (EngineError ''Failed''),
      \<lparr>put_calls = [], get_calls = [], write_calls = [], read_calls = [None]\<rparr>)"
  using
    level_errors_verbatim [of
      "\<lparr>put_calls = [Some (EngineError ''Failed''), None], get_calls = [],
        write_calls = [], read_calls = []\<rparr>" "EngineError ''Failed''"
      4 "\<lparr>db = Map.empty, fs = []\<rparr>" "''5e52''"
      "\<lparr>contracts = [], challenges = [], trees = [], meta = []\<rparr>" "Some [116, 101, 115, 116]"]
    level_errors_verbatim [of
      "\<lparr>put_calls = [], get_calls = [],
        write_calls = [Some (EngineError ''Failed''), None], read_calls = []\<rparr>"
      "EngineError ''Failed''"
      4 "\<lparr>db = Map.empty, fs = []\<rparr>" "''5e52''"
      "\<lparr>contracts = [], challenges = [], trees = [], meta = []\<rparr>" _ "[116, 101, 115, 116]"]
    level_errors_verbatim [of
      "\<lparr>put_calls = [], get_calls = [Some (EngineError ''Not found''), None],
        write_calls = [], read_calls = []\<rparr>" "EngineError ''Not found''" _
      "\<lparr>db = [''5e52'' \<mapsto> \<lparr>contracts = [], challenges = [], trees = [], meta = []\<rparr>],
        fs = [((''5e52'', 0), [116, 101, 115, 116])]\<rparr>" "''5e52''"]
    level_errors_verbatim [of
      "\<lparr>put_calls = [], get_calls = [],
        write_calls = [], read_calls = [Some (EngineError ''Failed''), None]\<rparr>"
      "EngineError ''Failed''" _
      "\<lparr>db = [''5e52'' \<mapsto> \<lparr>contracts = [], challenges = [], trees = [], meta = []\<rparr>],
        fs = [((''5e52'', 0), [116, 101, 115, 116])]\<rparr>" "''5e52''"
      "\<lparr>contracts = [], challenges = [], trees = [], meta = []\<rparr>"]
  by simp

end
